theory Spec2Isabelle
  imports Complex_Main "HOL-Library.Multiset"
begin

section \<open>Values\<close>

text \<open>
  The cheat sheet works on JavaScript arrays. An array is a list whose slots hold either a
  value or \<^verbatim>\<open>undefined\<close>: a slot is an \<open>option\<close>, \<open>None\<close> standing for
  \<^verbatim>\<open>undefined\<close>. A number is an IEEE double: a finite one is the real number it
  denotes (the two zeros compare equal and are identified), and the three special values are
  constructors of their own. Only comparison is ever applied to a number by the functions
  below, and it is exact on doubles. A value is a number or a (nested) array.
\<close>

datatype jsnum = NaN | NegInf | Fin real | PosInf

datatype val = Num jsnum | Arr "val option list"

datatype error = IndexOutOfRangeError

text \<open>The relational operators \<^verbatim>\<open><\<close>, \<^verbatim>\<open><=\<close>, \<^verbatim>\<open>>\<close> on numbers: every comparison
  with \<open>NaN\<close> is false.\<close>

fun lt_num :: "jsnum \<Rightarrow> jsnum \<Rightarrow> bool" where
  "lt_num NaN b = False"
| "lt_num a NaN = False"
| "lt_num PosInf b = False"
| "lt_num a NegInf = False"
| "lt_num NegInf b = True"
| "lt_num a PosInf = True"
| "lt_num (Fin a) (Fin b) = (a < b)"

definition le_num :: "jsnum \<Rightarrow> jsnum \<Rightarrow> bool" where
  "le_num a b = (a \<noteq> NaN \<and> b \<noteq> NaN \<and> \<not> lt_num b a)"

text \<open>
  An operand of a relational operator is first converted to a number: \<^verbatim>\<open>undefined\<close>
  becomes \<open>NaN\<close>. JavaScript converts an array through its string form, which is not
  represented here; an array operand is read as \<open>NaN\<close>, and every statement below about
  a comparison is restricted to numbers.
\<close>

fun to_number :: "val option \<Rightarrow> jsnum" where
  "to_number None = NaN"
| "to_number (Some (Num n)) = n"
| "to_number (Some (Arr a)) = NaN"

definition lt_js :: "val option \<Rightarrow> val option \<Rightarrow> bool" where
  "lt_js a b = lt_num (to_number a) (to_number b)"

definition le_js :: "val option \<Rightarrow> val option \<Rightarrow> bool" where
  "le_js a b = le_num (to_number a) (to_number b)"

definition gt_js :: "val option \<Rightarrow> val option \<Rightarrow> bool" where
  "gt_js a b = lt_num (to_number b) (to_number a)"

section \<open>Primitives\<close>

text \<open>
  \<^verbatim>\<open>const head = ([x]) => x;  const tail = ([, ...xs]) => xs;\<close>
  Destructuring the empty array binds \<open>x\<close> to \<^verbatim>\<open>undefined\<close> and \<open>xs\<close> to the empty
  array.
\<close>

fun head :: "'a option list \<Rightarrow> 'a option" where
  "head [] = None"
| "head (x # xs) = x"

fun tail :: "'a option list \<Rightarrow> 'a option list" where
  "tail [] = []"
| "tail (x # xs) = xs"

text \<open>\<^verbatim>\<open>const def = x => typeof x !== 'undefined';  const undef = x => !def(x);\<close>\<close>

definition "def" :: "'a option \<Rightarrow> bool" where
  "def x = (x \<noteq> None)"

definition undef :: "'a option \<Rightarrow> bool" where
  "undef x = (\<not> def x)"

text \<open>
  Every function below starts with \<^verbatim>\<open>([x, ...xs]) => def(x) ? ... : ...\<close>. The test
  \<open>def x\<close> fails in two cases, the empty array and an array whose first slot is
  \<^verbatim>\<open>undefined\<close>; they are the first two equations of each definition, and the third is
  the branch taken when \<open>def x\<close> holds, where \<open>x\<close> is a proper value.
\<close>

text \<open>\<^verbatim>\<open>const length = ([x, ...xs], len = 0) => (def(x) ? length(xs, len + 1) : len);\<close>\<close>

fun length_acc :: "'a option list \<Rightarrow> nat \<Rightarrow> nat" where
  "length_acc [] len = len"
| "length_acc (None # xs) len = len"
| "length_acc (Some x # xs) len = length_acc xs (len + 1)"

text \<open>\<^verbatim>\<open>const length = ([x, ...xs]) => (def(x) ? 1 + length(xs) : 0);\<close>\<close>

fun length_js :: "'a option list \<Rightarrow> nat" where
  "length_js [] = 0"
| "length_js (None # xs) = 0"
| "length_js (Some x # xs) = 1 + length_js xs"

text \<open>\<^verbatim>\<open>const reverse = ([x, ...xs]) => (def(x) ? [...reverse(xs), x] : []);\<close>\<close>

fun reverse :: "'a option list \<Rightarrow> 'a option list" where
  "reverse [] = []"
| "reverse (None # xs) = []"
| "reverse (Some x # xs) = reverse xs @ [Some x]"

text \<open>
  \<^verbatim>\<open>const first = ([x, ...xs], n = 1) => def(x) && n ? [x, ...first(xs, n - 1)] : [];\<close>
  The count is an integer or is left out (\<open>None\<close>), in which case it is 1. An integer is
  truthy when it is not zero.
\<close>

fun first :: "'a option list \<Rightarrow> int option \<Rightarrow> 'a option list" where
  "first [] n = []"
| "first (None # xs) n = []"
| "first (Some x # xs) n =
     (let n = (case n of None \<Rightarrow> 1 | Some k \<Rightarrow> k)
      in if n \<noteq> 0 then Some x # first xs (Some (n - 1)) else [])"

text \<open>
  \<^verbatim>\<open>
  const slice = ([x, ...xs], i, y, curr = 0) =>
    def(x)
      ? curr === i
        ? [y, x, ...slice(xs, i, y, curr + 1)]
        : [x, ...slice(xs, i, y, curr + 1)]
      : [];
  \<close>
  (\<open>cur\<close> is the parameter \<^verbatim>\<open>curr\<close>, 0 at the first call.)
\<close>

fun slice :: "'a option list \<Rightarrow> int \<Rightarrow> 'a option \<Rightarrow> nat \<Rightarrow> 'a option list" where
  "slice [] i y cur = []"
| "slice (None # xs) i y cur = []"
| "slice (Some x # xs) i y cur =
     (if int cur = i
      then y # Some x # slice xs i y (cur + 1)
      else Some x # slice xs i y (cur + 1))"

text \<open>
  \<^verbatim>\<open>
  const flatten = ([x, ...xs]) =>
    def(x)
      ? isArray(x)
        ? [...flatten(x), ...flatten(xs)]
        : [x, ...flatten(xs)]
      : [];
  \<close>
\<close>

fun flatten :: "val option list \<Rightarrow> val option list" where
  "flatten [] = []"
| "flatten (None # xs) = []"
| "flatten (Some (Arr a) # xs) = flatten a @ flatten xs"
| "flatten (Some (Num n) # xs) = Some (Num n) # flatten xs"

text \<open>
  \<^verbatim>\<open>const map = ([x, ...xs], fn) => (def(x) ? [fn(x), ...map(xs, fn)] : []);\<close>
  The callback is called with one argument, and may return \<^verbatim>\<open>undefined\<close>.
\<close>

fun map_js :: "'a option list \<Rightarrow> ('a \<Rightarrow> 'b option) \<Rightarrow> 'b option list" where
  "map_js [] fn = []"
| "map_js (None # xs) fn = []"
| "map_js (Some x # xs) fn = fn x # map_js xs fn"

text \<open>
  \<^verbatim>\<open>
  const filter = ([x, ...xs], fn) =>
    def(x) ? (fn(x) ? [x, ...filter(xs, fn)] : [...filter(xs, fn)]) : [];
  \<close>
  A predicate is given by the truthiness of what it returns.
\<close>

fun filter_js :: "'a option list \<Rightarrow> ('a \<Rightarrow> bool) \<Rightarrow> 'a option list" where
  "filter_js [] fn = []"
| "filter_js (None # xs) fn = []"
| "filter_js (Some x # xs) fn =
     (if fn x then Some x # filter_js xs fn else filter_js xs fn)"

text \<open>
  \<^verbatim>\<open>
  const reject = ([x, ...xs], fn) => {
    if (undef(x)) return [];
    if (!fn(x)) { return [x, ...reject(xs, fn)]; } else { return [...reject(xs, fn)]; }
  };
  \<close>
\<close>

fun reject :: "'a option list \<Rightarrow> ('a \<Rightarrow> bool) \<Rightarrow> 'a option list" where
  "reject [] fn = []"
| "reject (None # xs) fn = []"
| "reject (Some x # xs) fn =
     (if \<not> fn x then Some x # reject xs fn else reject xs fn)"

text \<open>\<^verbatim>\<open>const partition = (xs, fn) => [filter(xs, fn), reject(xs, fn)];\<close>\<close>

definition partition_js ::
  "'a option list \<Rightarrow> ('a \<Rightarrow> bool) \<Rightarrow> 'a option list \<times> 'a option list" where
  "partition_js xs fn = (filter_js xs fn, reject xs fn)"

text \<open>
  \<^verbatim>\<open>
  const swap = (a, i, j) =>
    map(a, (x, y) => {
      if (y === i) return a[j];
      if (y === j) return a[i];
      return x;
    });
  \<close>
  \<open>at_js a j\<close> is the read \<^verbatim>\<open>a[j]\<close>, which yields \<^verbatim>\<open>undefined\<close> out of range.
  \<open>swap_fn\<close> is the callback; its second parameter \<open>y\<close> is a number or
  \<^verbatim>\<open>undefined\<close>. \<open>map\<close> calls its callback with one argument, so that \<open>y\<close> is
  \<^verbatim>\<open>undefined\<close> at every call. No path of \<open>swap\<close> throws: its result is always
  \<open>Inr\<close>.
\<close>

definition at_js :: "'a option list \<Rightarrow> int \<Rightarrow> 'a option" where
  "at_js a j = (if 0 \<le> j \<and> j < int (length a) then a ! nat j else None)"

definition swap_fn :: "'a option list \<Rightarrow> int \<Rightarrow> int \<Rightarrow> 'a \<Rightarrow> int option \<Rightarrow> 'a option" where
  "swap_fn a i j x y =
     (if y = Some i then at_js a j
      else if y = Some j then at_js a i
      else Some x)"

definition swap :: "'a option list \<Rightarrow> int \<Rightarrow> int \<Rightarrow> error + 'a option list" where
  "swap a i j = Inr (map_js a (\<lambda>x. swap_fn a i j x None))"

section \<open>Reduce and the functions built on it\<close>

text \<open>
  \<^verbatim>\<open>
  const reduce = ([x, ...xs], f, memo, i = 0) =>
    def(x) ? reduce(xs, f, f(memo, x, i), i + 1) : memo;
  \<close>
\<close>

fun reduce :: "'a option list \<Rightarrow> ('m \<Rightarrow> 'a \<Rightarrow> nat \<Rightarrow> 'm) \<Rightarrow> 'm \<Rightarrow> nat \<Rightarrow> 'm" where
  "reduce [] f memo i = memo"
| "reduce (None # xs) f memo i = memo"
| "reduce (Some x # xs) f memo i = reduce xs f (f memo x i) (i + 1)"

text \<open>
  \<^verbatim>\<open>
  const reverse = xs => reduce(xs, (memo, x) => [x, ...memo], []);
  const length = xs => reduce(xs, (memo, x) => memo + 1, 0);
  const map = (xs, fn) => reduce(xs, (memo, x) => [...memo, fn(x)], []);
  const filter = (xs, fn) =>
    reduce(xs, (memo, x) => (fn(x) ? [...memo, x] : [...memo]), []);
  const reject = (xs, fn) =>
    reduce(xs, (memo, x) => (fn(x) ? [...memo] : [...memo, x]), []);
  const first = (xs, n) =>
    reduce(xs, (memo, x, i) => (i < n ? [...memo, x] : [...memo]), []);
  \<close>
  In \<open>first\<close> the count has no default here: when it is left out, \<^verbatim>\<open>i < undefined\<close>
  is false at every index.
\<close>

definition reverse_reduce :: "'a option list \<Rightarrow> 'a option list" where
  "reverse_reduce xs = reduce xs (\<lambda>memo x i. Some x # memo) [] 0"

definition length_reduce :: "'a option list \<Rightarrow> nat" where
  "length_reduce xs = reduce xs (\<lambda>memo x i. memo + 1) 0 0"

definition map_reduce :: "'a option list \<Rightarrow> ('a \<Rightarrow> 'b option) \<Rightarrow> 'b option list" where
  "map_reduce xs fn = reduce xs (\<lambda>memo x i. memo @ [fn x]) [] 0"

definition filter_reduce :: "'a option list \<Rightarrow> ('a \<Rightarrow> bool) \<Rightarrow> 'a option list" where
  "filter_reduce xs fn = reduce xs (\<lambda>memo x i. if fn x then memo @ [Some x] else memo) [] 0"

definition reject_reduce :: "'a option list \<Rightarrow> ('a \<Rightarrow> bool) \<Rightarrow> 'a option list" where
  "reject_reduce xs fn = reduce xs (\<lambda>memo x i. if fn x then memo else memo @ [Some x]) [] 0"

definition first_reduce :: "'a option list \<Rightarrow> int option \<Rightarrow> 'a option list" where
  "first_reduce xs n =
     reduce xs
       (\<lambda>memo x i. if (case n of None \<Rightarrow> False | Some k \<Rightarrow> int i < k)
                   then memo @ [Some x] else memo)
       [] 0"

text \<open>
  \<^verbatim>\<open>
  const flow = (...args) => init => reduce(args, (memo, fn) => fn(memo), init);
  const compose = (...args) => flow(...reverse(args));
  \<close>
  The arguments are an array of functions, handled by the same \<open>reduce\<close> and
  \<open>reverse\<close> as every other array.
\<close>

definition flow :: "('a \<Rightarrow> 'a) option list \<Rightarrow> 'a \<Rightarrow> 'a" where
  "flow args init = reduce args (\<lambda>memo fn i. fn memo) init 0"

definition compose :: "('a \<Rightarrow> 'a) option list \<Rightarrow> 'a \<Rightarrow> 'a" where
  "compose args = flow (reverse args)"

section \<open>Minimum, maximum and quicksort\<close>

text \<open>
  \<^verbatim>\<open>
  const min = ([x, ...xs], result = Infinity) =>
    def(x) ? (x < result ? min(xs, x) : result) : result;
  const max = ([x, ...xs], result = -Infinity) =>
    def(x) ? (x > result ? max(xs, x) : max(xs, result)) : result;
  \<close>
  The call \<^verbatim>\<open>min(s)\<close> is \<open>min_js s (Num PosInf)\<close>, and \<^verbatim>\<open>max(s)\<close> is
  \<open>max_js s (Num NegInf)\<close>.
\<close>

fun min_js :: "val option list \<Rightarrow> val \<Rightarrow> val" where
  "min_js [] result = result"
| "min_js (None # xs) result = result"
| "min_js (Some x # xs) result =
     (if lt_js (Some x) (Some result) then min_js xs x else result)"

fun max_js :: "val option list \<Rightarrow> val \<Rightarrow> val" where
  "max_js [] result = result"
| "max_js (None # xs) result = result"
| "max_js (Some x # xs) result =
     (if gt_js (Some x) (Some result) then max_js xs x else max_js xs result)"

lemma length_filter_js_le: "length (filter_js xs fn) \<le> length xs"
  by (induction xs fn rule: filter_js.induct) auto

lemma length_reject_le: "length (reject xs fn) \<le> length xs"
  by (induction xs fn rule: reject.induct) auto

lemma length_js_pos: "length_js xs \<noteq> 0 \<Longrightarrow> length (tail xs) < length xs"
  by (cases xs) auto

text \<open>
  \<^verbatim>\<open>
  const quicksort = xs =>
    length(xs)
      ? flatten([
          quicksort(filter(tail(xs), x => x <= head(xs))),
          head(xs),
          quicksort(filter(tail(xs), x => x > head(xs)))
        ])
      : [];
  \<close>
  \<open>flatten\<close>, \<open>filter\<close> and \<open>length\<close> are the utilities defined above it.
\<close>

function quicksort :: "val option list \<Rightarrow> val option list" where
  "quicksort xs =
     (if length_js xs \<noteq> 0
      then flatten
             [Some (Arr (quicksort (filter_js (tail xs) (\<lambda>x. le_js (Some x) (head xs))))),
              head xs,
              Some (Arr (quicksort (filter_js (tail xs) (\<lambda>x. gt_js (Some x) (head xs)))))]
      else [])"
  by pat_completeness auto
termination
proof (relation "measure length")
  show "wf (measure length)" by simp
next
  fix xs :: "val option list"
  assume "length_js xs \<noteq> 0"
  then show "(filter_js (tail xs) (\<lambda>x. le_js (Some x) (head xs)), xs) \<in> measure length"
    using length_filter_js_le [of "tail xs" "\<lambda>x. le_js (Some x) (head xs)"]
      length_js_pos [of xs] by simp
next
  fix xs :: "val option list"
  assume "length_js xs \<noteq> 0"
  then show "(filter_js (tail xs) (\<lambda>x. gt_js (Some x) (head xs)), xs) \<in> measure length"
    using length_filter_js_le [of "tail xs" "\<lambda>x. gt_js (Some x) (head xs)"]
      length_js_pos [of xs] by simp
qed

declare quicksort.simps [simp del]

text \<open>
  \<^verbatim>\<open>
  const quicksort = array => {
    if (!length(array)) return [];
    const [less, more] = partition(tail(array), x => x < head(array));
    return flatten([quicksort(less), head(array), quicksort(more)]);
  };
  \<close>
\<close>

function quicksort_partition :: "val option list \<Rightarrow> val option list" where
  "quicksort_partition array =
     (if \<not> length_js array \<noteq> 0 then []
      else flatten
             [Some (Arr (quicksort_partition
                (fst (partition_js (tail array) (\<lambda>x. lt_js (Some x) (head array)))))),
              head array,
              Some (Arr (quicksort_partition
                (snd (partition_js (tail array) (\<lambda>x. lt_js (Some x) (head array))))))])"
  by pat_completeness auto
termination
proof (relation "measure length")
  show "wf (measure length)" by simp
next
  fix array :: "val option list"
  assume "\<not> \<not> length_js array \<noteq> 0"
  then show "(fst (partition_js (tail array) (\<lambda>x. lt_js (Some x) (head array))), array)
      \<in> measure length"
    using length_filter_js_le [of "tail array" "\<lambda>x. lt_js (Some x) (head array)"]
      length_js_pos [of array]
    by (simp add: partition_js_def)
next
  fix array :: "val option list"
  assume "\<not> \<not> length_js array \<noteq> 0"
  then show "(snd (partition_js (tail array) (\<lambda>x. lt_js (Some x) (head array))), array)
      \<in> measure length"
    using length_reject_le [of "tail array" "\<lambda>x. lt_js (Some x) (head array)"]
      length_js_pos [of array]
    by (simp add: partition_js_def)
qed

declare quicksort_partition.simps [simp del]

text \<open>
  The first quicksort again, with nothing assumed about its termination: a call that
  does not return has the value \<open>None\<close>. The elements of the array literal are evaluated
  from left to right.
\<close>

partial_function (option) quicksort_run :: "val option list \<Rightarrow> val option list option" where
  "quicksort_run xs =
     (if length_js xs \<noteq> 0
      then Option.bind (quicksort_run (filter_js (tail xs) (\<lambda>x. le_js (Some x) (head xs))))
        (\<lambda>less. Option.bind
           (quicksort_run (filter_js (tail xs) (\<lambda>x. gt_js (Some x) (head xs))))
           (\<lambda>more. Some (flatten [Some (Arr less), head xs, Some (Arr more)])))
      else Some [])"

text \<open>
  An array of numbers: every slot holds a number other than \<open>NaN\<close> (the two infinities
  are allowed). On these the relational operators are a total order.
\<close>

fun number :: "val option \<Rightarrow> bool" where
  "number (Some (Num n)) = (n \<noteq> NaN)"
| "number x = False"

definition numeric :: "val option list \<Rightarrow> bool" where
  "numeric s = list_all number s"

section \<open>Reductions agree with the direct recursions\<close>

lemma reduce_reverse: "reduce xs (\<lambda>memo x i. Some x # memo) acc i = reverse xs @ acc"
  by (induction xs arbitrary: acc i rule: reverse.induct) simp_all

lemma reduce_length: "reduce xs (\<lambda>memo x i. memo + 1) acc i = length_js xs + acc"
  by (induction xs arbitrary: acc i rule: length_js.induct) simp_all

lemma length_acc_length_js: "length_acc xs len = length_js xs + len"
  by (induction xs len rule: length_acc.induct) simp_all

lemma reduce_map: "reduce xs (\<lambda>memo x i. memo @ [fn x]) acc i = acc @ map_js xs fn"
  by (induction xs fn arbitrary: acc i rule: map_js.induct) simp_all

lemma reduce_filter:
  "reduce xs (\<lambda>memo x i. if fn x then memo @ [Some x] else memo) acc i = acc @ filter_js xs fn"
  by (induction xs fn arbitrary: acc i rule: filter_js.induct) simp_all

lemma reduce_reject:
  "reduce xs (\<lambda>memo x i. if fn x then memo else memo @ [Some x]) acc i = acc @ reject xs fn"
  by (induction xs fn arbitrary: acc i rule: reject.induct) simp_all

text \<open>
  Claim C3. For every array \<open>xs\<close>, every callback \<open>fn\<close> and every predicate \<open>p\<close>, the direct
  head/tail recursions \<open>reverse\<close>, \<open>length\<close> (with and without accumulator), \<open>map\<close>,
  \<open>filter\<close> and \<open>reject\<close> return the same result as their formulations through
  \<open>reduce\<close>. This holds for arrays with \<^verbatim>\<open>undefined\<close> slots as well: both forms stop there.
\<close>

theorem fold_equivalence:
  "reverse xs = reverse_reduce xs
   \<and> length_js xs = length_reduce xs
   \<and> length_acc xs 0 = length_reduce xs
   \<and> map_js xs fn = map_reduce xs fn
   \<and> filter_js xs p = filter_reduce xs p
   \<and> reject xs p = reject_reduce xs p"
proof -
  have "reverse_reduce xs = reverse xs"
    unfolding reverse_reduce_def by (simp only: reduce_reverse append_Nil2)
  moreover have len: "length_reduce xs = length_js xs"
    unfolding length_reduce_def by (simp only: reduce_length add_0_right)
  moreover have "length_acc xs 0 = length_js xs"
    by (simp only: length_acc_length_js add_0_right)
  moreover have "map_reduce xs fn = map_js xs fn"
    unfolding map_reduce_def by (simp only: reduce_map append_Nil)
  moreover have "filter_reduce xs p = filter_js xs p"
    unfolding filter_reduce_def by (simp only: reduce_filter append_Nil)
  moreover have "reject_reduce xs p = reject xs p"
    unfolding reject_reduce_def by (simp only: reduce_reject append_Nil)
  ultimately show ?thesis by simp
qed

section \<open>Reverse\<close>

lemma reverse_rev: "None \<notin> set s \<Longrightarrow> reverse s = rev s"
  by (induction s rule: reverse.induct) simp_all

lemma reverse_defined: "None \<notin> set (reverse s)"
  by (induction s rule: reverse.induct) simp_all

text \<open>
  Claim C4 says that \<open>reverse (reverse s) = s\<close> for every array. An array with an
  \<^verbatim>\<open>undefined\<close> slot refutes it: \<open>reverse\<close> stops at that slot, and
  \<^verbatim>\<open>reverse(reverse([1, undefined, 2]))\<close> is \<^verbatim>\<open>[1]\<close>.
\<close>

theorem reverse_involution_counterexample:
  "reverse (reverse [Some (Num (Fin 1)), None, Some (Num (Fin 2))])
     \<noteq> [Some (Num (Fin 1)), None, Some (Num (Fin 2))]"
  by simp

text \<open>
  Claim C4, amended. For every array \<open>s\<close> with no \<^verbatim>\<open>undefined\<close> slot, reversing twice
  gives \<open>s\<close> back.
\<close>

theorem reverse_involution: "None \<notin> set s \<Longrightarrow> reverse (reverse s) = s"
  by (simp add: reverse_rev)

theorem reverse_involution_witness:
  "None \<notin> set [Some (Num (Fin 1)), Some (Num (Fin 2)), Some (Num (Fin 3))]
   \<and> reverse (reverse [Some (Num (Fin 1)), Some (Num (Fin 2)), Some (Num (Fin 3))])
       = [Some (Num (Fin 1)), Some (Num (Fin 2)), Some (Num (Fin 3))]"
proof -
  have h: "None \<notin> set [Some (Num (Fin 1)), Some (Num (Fin 2)), Some (Num (Fin 3))]"
    by simp
  from h reverse_involution [OF h] show ?thesis by (rule conjI)
qed

section \<open>Flow and compose\<close>

lemma reduce_flow: "reduce (map Some fs) (\<lambda>memo fn i. fn memo) x i = fold (\<lambda>fn memo. fn memo) fs x"
  by (induction fs arbitrary: x i) simp_all

lemma flow_fold: "flow (map Some fs) x = fold (\<lambda>fn memo. fn memo) fs x"
  by (simp add: flow_def reduce_flow)

lemma compose_foldr: "compose (map Some fs) x = foldr (\<lambda>fn memo. fn memo) fs x"
proof -
  have "reverse (map Some fs) = map Some (rev fs)"
    by (simp add: reverse_rev rev_map image_iff)
  then show ?thesis
    by (simp add: compose_def flow_fold foldr_conv_fold)
qed

text \<open>
  Claim C8. For all unary functions \<open>f\<close>, \<open>g\<close>, \<open>h\<close> and every input \<open>x\<close>,
  \<^verbatim>\<open>compose(f, g, h)(x)\<close> is \<open>f (g (h x))\<close> and \<^verbatim>\<open>flow(f, g, h)(x)\<close> is
  \<open>h (g (f x))\<close>; \<open>compose\<close> is \<open>flow\<close> on the reversed arguments.
\<close>

theorem composition_law:
  "compose [Some f, Some g, Some h] x = f (g (h x))
   \<and> flow [Some f, Some g, Some h] x = h (g (f x))
   \<and> compose args = flow (reverse args)"
  by (simp add: compose_def flow_def)

section \<open>An undefined slot ends the input\<close>

lemma length_js_length: "None \<notin> set s \<Longrightarrow> length_js s = length s"
  by (induction s rule: length_js.induct) simp_all

lemma length_js_stop: "None \<notin> set s \<Longrightarrow> length_js (s @ None # t) = length_js s"
  by (induction s rule: length_js.induct) simp_all

lemma length_acc_stop: "None \<notin> set s \<Longrightarrow> length_acc (s @ None # t) len = length_acc s len"
  by (induction s len rule: length_acc.induct) simp_all

lemma reverse_stop: "None \<notin> set s \<Longrightarrow> reverse (s @ None # t) = reverse s"
  by (induction s rule: reverse.induct) simp_all

lemma map_js_stop: "None \<notin> set s \<Longrightarrow> map_js (s @ None # t) fn = map_js s fn"
  by (induction s fn rule: map_js.induct) simp_all

lemma filter_js_stop: "None \<notin> set s \<Longrightarrow> filter_js (s @ None # t) fn = filter_js s fn"
  by (induction s fn rule: filter_js.induct) simp_all

lemma reject_stop: "None \<notin> set s \<Longrightarrow> reject (s @ None # t) fn = reject s fn"
  by (induction s fn rule: reject.induct) simp_all

lemma reduce_stop: "None \<notin> set s \<Longrightarrow> reduce (s @ None # t) f memo i = reduce s f memo i"
  by (induction s f memo i rule: reduce.induct) simp_all

lemma first_stop: "None \<notin> set s \<Longrightarrow> first (s @ None # t) n = first s n"
  by (induction s n rule: first.induct) (simp_all add: Let_def)

lemma slice_stop: "None \<notin> set s \<Longrightarrow> slice (s @ None # t) i y cur = slice s i y cur"
  by (induction s i y cur rule: slice.induct) simp_all

lemma flatten_stop: "None \<notin> set s \<Longrightarrow> flatten (s @ None # t) = flatten s"
  by (induction s rule: flatten.induct) simp_all

lemma min_js_stop: "None \<notin> set s \<Longrightarrow> min_js (s @ None # t) r = min_js s r"
  by (induction s r rule: min_js.induct) simp_all

lemma max_js_stop: "None \<notin> set s \<Longrightarrow> max_js (s @ None # t) r = max_js s r"
  by (induction s r rule: max_js.induct) simp_all

text \<open>
  Claim C10. Every recursion guarded by \<open>def\<close> treats an \<^verbatim>\<open>undefined\<close> slot as the end
  of the input: when \<open>s\<close> has no \<^verbatim>\<open>undefined\<close> slot, \<open>length\<close>, \<open>map\<close>, \<open>reverse\<close>
  and the other guarded functions return on \<open>s @ None # t\<close> what they return on \<open>s\<close>,
  whatever follows the slot; and \<open>s\<close> itself is processed in full (its \<open>length\<close> is the
  number of its slots).
\<close>

theorem undefined_ends_input:
  assumes "None \<notin> set s"
  shows "length_js (s @ None # t) = length_js s \<and> length_js s = length s
    \<and> length_acc (s @ None # t) 0 = length_acc s 0
    \<and> map_js (s @ None # t) fn = map_js s fn
    \<and> reverse (s @ None # t) = reverse s
    \<and> filter_js (s @ None # t) p = filter_js s p
    \<and> reject (s @ None # t) p = reject s p
    \<and> reduce (s @ None # t) f memo 0 = reduce s f memo 0
    \<and> first (s @ None # t) n = first s n
    \<and> slice (s @ None # t) i y 0 = slice s i y 0
    \<and> flatten (s @ None # t) = flatten s
    \<and> min_js (s @ None # t) r = min_js s r
    \<and> max_js (s @ None # t) r = max_js s r"
  using assms
  by (simp only: length_js_stop length_js_length length_acc_stop map_js_stop reverse_stop
      filter_js_stop reject_stop reduce_stop first_stop slice_stop flatten_stop min_js_stop
      max_js_stop simp_thms)

theorem undefined_ends_input_witness:
  "None \<notin> set [Some (Num (Fin 1)), Some (Num (Fin 2))]
   \<and> (length_js ([Some (Num (Fin 1)), Some (Num (Fin 2))] @ None # [Some (Num (Fin 3))])
        = length_js [Some (Num (Fin 1)), Some (Num (Fin 2))]
    \<and> length_js [Some (Num (Fin 1)), Some (Num (Fin 2))]
        = length [Some (Num (Fin 1)), Some (Num (Fin 2))]
    \<and> length_acc ([Some (Num (Fin 1)), Some (Num (Fin 2))] @ None # [Some (Num (Fin 3))]) 0
        = length_acc [Some (Num (Fin 1)), Some (Num (Fin 2))] 0
    \<and> map_js ([Some (Num (Fin 1)), Some (Num (Fin 2))] @ None # [Some (Num (Fin 3))]) Some
        = map_js [Some (Num (Fin 1)), Some (Num (Fin 2))] Some
    \<and> reverse ([Some (Num (Fin 1)), Some (Num (Fin 2))] @ None # [Some (Num (Fin 3))])
        = reverse [Some (Num (Fin 1)), Some (Num (Fin 2))]
    \<and> filter_js ([Some (Num (Fin 1)), Some (Num (Fin 2))] @ None # [Some (Num (Fin 3))])
          (\<lambda>x. True)
        = filter_js [Some (Num (Fin 1)), Some (Num (Fin 2))] (\<lambda>x. True)
    \<and> reject ([Some (Num (Fin 1)), Some (Num (Fin 2))] @ None # [Some (Num (Fin 3))])
          (\<lambda>x. True)
        = reject [Some (Num (Fin 1)), Some (Num (Fin 2))] (\<lambda>x. True)
    \<and> reduce ([Some (Num (Fin 1)), Some (Num (Fin 2))] @ None # [Some (Num (Fin 3))])
          (\<lambda>memo x i. memo + i) (0::nat) 0
        = reduce [Some (Num (Fin 1)), Some (Num (Fin 2))] (\<lambda>memo x i. memo + i) (0::nat) 0
    \<and> first ([Some (Num (Fin 1)), Some (Num (Fin 2))] @ None # [Some (Num (Fin 3))]) (Some 3)
        = first [Some (Num (Fin 1)), Some (Num (Fin 2))] (Some 3)
    \<and> slice ([Some (Num (Fin 1)), Some (Num (Fin 2))] @ None # [Some (Num (Fin 3))]) 1 None 0
        = slice [Some (Num (Fin 1)), Some (Num (Fin 2))] 1 None 0
    \<and> flatten ([Some (Num (Fin 1)), Some (Num (Fin 2))] @ None # [Some (Num (Fin 3))])
        = flatten [Some (Num (Fin 1)), Some (Num (Fin 2))]
    \<and> min_js ([Some (Num (Fin 1)), Some (Num (Fin 2))] @ None # [Some (Num (Fin 3))])
          (Num PosInf)
        = min_js [Some (Num (Fin 1)), Some (Num (Fin 2))] (Num PosInf)
    \<and> max_js ([Some (Num (Fin 1)), Some (Num (Fin 2))] @ None # [Some (Num (Fin 3))])
          (Num PosInf)
        = max_js [Some (Num (Fin 1)), Some (Num (Fin 2))] (Num PosInf))"
proof -
  have h: "None \<notin> set [Some (Num (Fin 1)), Some (Num (Fin 2))]"
    by simp
  from h undefined_ends_input [OF h] show ?thesis by (rule conjI)
qed

section \<open>First\<close>

lemma first_default: "first s None = first s (Some 1)"
  by (cases s rule: length_js.cases) simp_all

lemma first_take: "None \<notin> set s \<Longrightarrow> 0 \<le> n \<Longrightarrow> first s (Some n) = take (nat n) s"
proof (induction s arbitrary: n)
  case Nil
  then show ?case by simp
next
  case (Cons a s)
  then obtain x where a: "a = Some x" by (cases a) auto
  show ?case
  proof (cases "n = 0")
    case True
    then show ?thesis by (simp add: a)
  next
    case False
    with Cons.prems have "0 \<le> n - 1" and "nat n = Suc (nat (n - 1))" by simp_all
    with Cons.IH [of "n - 1"] Cons.prems False show ?thesis by (simp add: a)
  qed
qed

lemma first_negative: "None \<notin> set s \<Longrightarrow> n < 0 \<Longrightarrow> first s (Some n) = s"
proof (induction s arbitrary: n)
  case Nil
  then show ?case by simp
next
  case (Cons a s)
  then obtain x where a: "a = Some x" by (cases a) auto
  from Cons.prems have "n - 1 < 0" by simp
  with Cons.IH [of "n - 1"] Cons.prems show ?case by (simp add: a)
qed

lemma reduce_first:
  "None \<notin> set s \<Longrightarrow>
   reduce s (\<lambda>memo x i. if int i < k then memo @ [Some x] else memo) acc j
     = acc @ take (nat (k - int j)) s"
proof (induction s arbitrary: acc j)
  case Nil
  then show ?case by simp
next
  case (Cons a s)
  then obtain x where a: "a = Some x" by (cases a) auto
  show ?case
  proof (cases "int j < k")
    case True
    then have "nat (k - int j) = Suc (nat (k - int (j + 1)))" by simp
    with Cons.IH [of "acc @ [Some x]" "j + 1"] Cons.prems True show ?thesis
      by (simp add: a)
  next
    case False
    then have "nat (k - int j) = 0" and "nat (k - int (j + 1)) = 0" by simp_all
    with Cons.IH [of acc "j + 1"] Cons.prems False show ?thesis
      by (simp add: a)
  qed
qed

lemma first_reduce_take: "None \<notin> set s \<Longrightarrow> first_reduce s (Some n) = take (nat n) s"
  using reduce_first [of s n "[]" 0] by (simp add: first_reduce_def)

lemma first_reduce_default: "first_reduce s None = []"
proof -
  have "reduce s (\<lambda>memo x i. if False then memo @ [Some x] else memo) acc j = acc" for acc j
    by (induction s arbitrary: acc j rule: length_js.induct) simp_all
  then show ?thesis by (simp add: first_reduce_def)
qed

text \<open>
  Claim C5 says that \<open>first\<close> returns the leading \<open>min(n, length(s))\<close> elements, that the
  count defaults to 1 and that a count \<open>n \<le> 0\<close> gives the empty array. The lemmas above
  establish the first part for \<open>0 \<le> n\<close> in both definitions. The rest holds in one
  definition and fails in the other: with a negative count the head/tail recursion never sees
  a zero count and returns the whole array, where the reduction returns the empty array; and
  with the count left out the head/tail recursion returns one element, where the reduction
  returns the empty array.
\<close>

theorem first_negative_count:
  "first [Some (Num (Fin 1)), Some (Num (Fin 2)), Some (Num (Fin 3))] (Some (- 1))
     = [Some (Num (Fin 1)), Some (Num (Fin 2)), Some (Num (Fin 3))]
   \<and> first_reduce [Some (Num (Fin 1)), Some (Num (Fin 2)), Some (Num (Fin 3))] (Some (- 1)) = []
   \<and> first_reduce [Some (Num (Fin 1)), Some (Num (Fin 2)), Some (Num (Fin 3))] None = []
   \<and> first [Some (Num (Fin 1)), Some (Num (Fin 2)), Some (Num (Fin 3))] None
       = [Some (Num (Fin 1))]"
  by (simp add: first_reduce_def)

section \<open>Slice\<close>

lemma slice_insert:
  "None \<notin> set s \<Longrightarrow>
   slice s i y cur =
     (if int cur \<le> i \<and> i < int cur + int (length s)
      then take (nat (i - int cur)) s @ y # drop (nat (i - int cur)) s
      else s)"
proof (induction s arbitrary: cur)
  case Nil
  then show ?case by simp
next
  case (Cons a s)
  then obtain x where a: "a = Some x" by (cases a) auto
  from Cons.prems have IH: "slice s i y (cur + 1) =
     (if int (cur + 1) \<le> i \<and> i < int (cur + 1) + int (length s)
      then take (nat (i - int (cur + 1))) s @ y # drop (nat (i - int (cur + 1))) s
      else s)"
    using Cons.IH [of "cur + 1"] by simp
  show ?case
  proof (cases "int cur = i")
    case True
    then show ?thesis using IH by (simp add: a)
  next
    case False
    show ?thesis
    proof (cases "int cur < i")
      case True
      then have "nat (i - int cur) = Suc (nat (i - int (cur + 1)))" by simp
      with True False IH show ?thesis by (simp add: a)
    next
      case gt: False
      with False IH show ?thesis by (simp add: a)
    qed
  qed
qed

text \<open>
  Claim C6 says that \<open>slice\<close> inserts the value before position \<open>i\<close> and appends it when
  \<open>i\<close> is at or beyond the length. The value is inserted only when the running index meets
  \<open>i\<close> at an element: \<^verbatim>\<open>slice([1, 2], 5, 9)\<close> is \<^verbatim>\<open>[1, 2]\<close>. And an \<^verbatim>\<open>undefined\<close>
  slot ends the input: \<^verbatim>\<open>slice([1, undefined, 2], 0, 9)\<close> is \<^verbatim>\<open>[9, 1]\<close>.
\<close>

theorem slice_counterexample:
  "slice [Some (Num (Fin 1)), Some (Num (Fin 2))] 5 (Some (Num (Fin 9))) 0
     \<noteq> [Some (Num (Fin 1)), Some (Num (Fin 2)), Some (Num (Fin 9))]
   \<and> slice [Some (Num (Fin 1)), None, Some (Num (Fin 2))] 0 (Some (Num (Fin 9))) 0
     \<noteq> [Some (Num (Fin 9)), Some (Num (Fin 1)), None, Some (Num (Fin 2))]"
  by simp

text \<open>
  Claim C6, amended. For every array \<open>s\<close> with no \<^verbatim>\<open>undefined\<close> slot: when
  \<open>0 \<le> i < length s\<close>, \<open>slice\<close> returns \<open>s\<close> with \<open>v\<close> inserted immediately before position
  \<open>i\<close>, the elements of \<open>s\<close> keeping their order; when \<open>i > length s\<close>, it returns the
  elements of \<open>s\<close> and does not insert \<open>v\<close>.
\<close>

theorem slice_inserts_in_range:
  assumes "None \<notin> set s"
  shows "(0 \<le> i \<and> i < int (length s) \<longrightarrow>
            slice s i v 0 = take (nat i) s @ [v] @ drop (nat i) s)
       \<and> (int (length s) < i \<longrightarrow> slice s i v 0 = s)"
  using slice_insert [OF assms, of i v 0] by simp

theorem slice_inserts_in_range_witness:
  "None \<notin> set [Some (Num (Fin 1)), Some (Num (Fin 2)), Some (Num (Fin 4))]
   \<and> 0 \<le> (2::int) \<and> (2::int) < int (length [Some (Num (Fin 1)), Some (Num (Fin 2)), Some (Num (Fin 4))])
   \<and> slice [Some (Num (Fin 1)), Some (Num (Fin 2)), Some (Num (Fin 4))] 2 (Some (Num (Fin 3))) 0
       = [Some (Num (Fin 1)), Some (Num (Fin 2)), Some (Num (Fin 3)), Some (Num (Fin 4))]
   \<and> int (length [Some (Num (Fin 1)), Some (Num (Fin 2)), Some (Num (Fin 4))]) < 7
   \<and> slice [Some (Num (Fin 1)), Some (Num (Fin 2)), Some (Num (Fin 4))] 7 (Some (Num (Fin 3))) 0
       = [Some (Num (Fin 1)), Some (Num (Fin 2)), Some (Num (Fin 4))]"
proof -
  have h: "None \<notin> set [Some (Num (Fin 1)), Some (Num (Fin 2)), Some (Num (Fin 4))]"
    by simp
  show ?thesis
    using h slice_inserts_in_range [OF h, of 2 "Some (Num (Fin 3))"]
      slice_inserts_in_range [OF h, of 7 "Some (Num (Fin 3))"]
    by simp
qed

section \<open>Order on numbers\<close>

lemma number_cases: "number x \<Longrightarrow> \<exists>n. x = Some (Num n) \<and> n \<noteq> NaN"
  by (cases x rule: number.cases) simp_all

lemma numeric_Cons: "numeric (x # s) = (number x \<and> numeric s)"
  by (simp add: numeric_def)

lemma numeric_Nil: "numeric []"
  by (simp add: numeric_def)

lemma numeric_set: "numeric s = (\<forall>x\<in>set s. number x)"
  by (simp add: numeric_def list_all_iff)

lemma numeric_defined: "numeric s \<Longrightarrow> None \<notin> set s"
  by (auto simp: numeric_set)

lemma le_num_refl: "a \<noteq> NaN \<Longrightarrow> le_num a a"
  by (cases a) (simp_all add: le_num_def)

lemma le_num_trans: "le_num a b \<Longrightarrow> le_num b c \<Longrightarrow> le_num a c"
  by (cases a; cases b; cases c) (simp_all add: le_num_def)

lemma lt_num_le: "lt_num a b \<Longrightarrow> le_num a b"
  by (cases a; cases b) (simp_all add: le_num_def)

lemma not_lt_num_le: "a \<noteq> NaN \<Longrightarrow> b \<noteq> NaN \<Longrightarrow> \<not> lt_num a b \<Longrightarrow> le_num b a"
  by (simp add: le_num_def)

lemma le_num_not_gt: "a \<noteq> NaN \<Longrightarrow> b \<noteq> NaN \<Longrightarrow> le_num a b = (\<not> lt_num b a)"
  by (simp add: le_num_def)

lemma le_num_NegInf: "le_num a NegInf \<Longrightarrow> a = NegInf"
  by (cases a) (simp_all add: le_num_def)

section \<open>Minimum and maximum\<close>

lemma min_max_empty: "min_js [] (Num PosInf) = Num PosInf \<and> max_js [] (Num NegInf) = Num NegInf"
  by simp

lemma max_js_upper:
  "numeric s \<Longrightarrow> r \<noteq> NaN \<Longrightarrow>
   (\<exists>m. max_js s (Num r) = Num m \<and> m \<noteq> NaN \<and> le_num r m
      \<and> (\<forall>y\<in>set s. le_num (to_number y) m)
      \<and> (m = r \<or> Some (Num m) \<in> set s))"
proof (induction s arbitrary: r)
  case Nil
  then show ?case by (simp add: le_num_refl)
next
  case (Cons a s)
  from Cons.prems obtain n where a: "a = Some (Num n)" and n: "n \<noteq> NaN"
    using number_cases [of a] by (auto simp: numeric_Cons)
  from Cons.prems have s: "numeric s" by (simp add: numeric_Cons)
  show ?case
  proof (cases "lt_num r n")
    case True
    from Cons.IH [OF s n] obtain m where m: "max_js s (Num n) = Num m" "m \<noteq> NaN"
      "le_num n m" "\<forall>y\<in>set s. le_num (to_number y) m" "m = n \<or> Some (Num m) \<in> set s"
      by blast
    from True have "le_num r n" by (rule lt_num_le)
    then have "le_num r m" using m(3) by (rule le_num_trans)
    with m True show ?thesis by (auto simp: a gt_js_def)
  next
    case False
    from Cons.IH [OF s Cons.prems(2)] obtain m where m: "max_js s (Num r) = Num m"
      "m \<noteq> NaN" "le_num r m" "\<forall>y\<in>set s. le_num (to_number y) m"
      "m = r \<or> Some (Num m) \<in> set s"
      by blast
    from False n Cons.prems(2) have "le_num n r" by (simp add: le_num_def)
    then have "le_num n m" using m(3) by (rule le_num_trans)
    with m False show ?thesis by (auto simp: a gt_js_def)
  qed
qed

lemma max_js_greatest:
  assumes "numeric s" and "s \<noteq> []"
  shows "Some (max_js s (Num NegInf)) \<in> set s
       \<and> (\<forall>y\<in>set s. le_js y (Some (max_js s (Num NegInf))))"
proof -
  from max_js_upper [OF assms(1), of NegInf] obtain m where
    m: "max_js s (Num NegInf) = Num m" "\<forall>y\<in>set s. le_num (to_number y) m"
      "m = NegInf \<or> Some (Num m) \<in> set s"
    by auto
  have "Some (Num m) \<in> set s"
  proof (cases "m = NegInf")
    case True
    from assms(2) obtain y where y: "y \<in> set s" by (cases s) auto
    with assms(1) obtain n where n: "y = Some (Num n)"
      using number_cases [of y] by (auto simp: numeric_set)
    from m(2) y True have "le_num (to_number y) NegInf" by simp
    then have "n = NegInf" by (simp add: n le_num_NegInf)
    with y n True show ?thesis by simp
  next
    case False
    with m(3) show ?thesis by simp
  qed
  with m show ?thesis by (simp add: le_js_def)
qed

text \<open>
  Claim C2 says that \<open>min\<close> returns the smallest and \<open>max\<close> the largest element. \<open>max\<close>
  does (lemma \<open>max_js_greatest\<close>), and both return their sentinel on the empty array. \<open>min\<close>
  returns as soon as an element is not below the running result, without looking at the rest:
  \<^verbatim>\<open>min([3, 5, 1])\<close> is 3, although 1 is smaller.
\<close>

theorem min_early_return:
  "min_js [Some (Num (Fin 3)), Some (Num (Fin 5)), Some (Num (Fin 1))] (Num PosInf) = Num (Fin 3)
   \<and> lt_js (Some (Num (Fin 1))) (Some (Num (Fin 3)))
   \<and> max_js [Some (Num (Fin 3)), Some (Num (Fin 5)), Some (Num (Fin 1))] (Num NegInf) = Num (Fin 5)"
  by (simp add: lt_js_def gt_js_def)

section \<open>Swap\<close>

lemma length_map_js: "length (map_js s fn) = length_js s"
  by (induction s fn rule: map_js.induct) simp_all

lemma map_js_Some_nth: "k < length_js s \<Longrightarrow> map_js s Some ! k = s ! k"
proof (induction s arbitrary: k rule: length_js.induct)
  case (3 x xs)
  then show ?case by (cases k) simp_all
qed simp_all

lemma swap_copy: "swap s i j = Inr (map_js s Some)"
  by (simp add: swap_def swap_fn_def)

lemma map_js_Some: "None \<notin> set s \<Longrightarrow> map_js s Some = s"
  by (induction s rule: length_js.induct) simp_all

text \<open>
  Claim C7 says that \<open>swap\<close> exchanges the elements at two positions in range and fails
  with \<open>IndexOutOfRangeError\<close> otherwise. It never fails: \<^verbatim>\<open>swap([1, 2, 3], 0, 5)\<close> returns
  an array. Nor does it exchange anything: its callback compares its second parameter with
  the indices, and \<open>map\<close> passes one argument only, so \<^verbatim>\<open>swap([1, 2, 3], 0, 2)\<close> is
  \<^verbatim>\<open>[1, 2, 3]\<close>.
\<close>

theorem swap_counterexample:
  "swap [Some (Num (Fin 1)), Some (Num (Fin 2)), Some (Num (Fin 3))] 0 5
      \<noteq> Inl IndexOutOfRangeError
   \<and> swap [Some (Num (Fin 1)), Some (Num (Fin 2)), Some (Num (Fin 3))] 0 2
      \<noteq> Inr [Some (Num (Fin 3)), Some (Num (Fin 2)), Some (Num (Fin 1))]"
  by (simp add: swap_def swap_fn_def)

text \<open>
  Claim C7, amended. For every array \<open>s\<close> and all indices \<open>i\<close>, \<open>j\<close>, in range or not,
  \<open>swap\<close> does not fail: it returns a new array of the length of \<open>s\<close> in which every
  position other than \<open>i\<close> and \<open>j\<close> holds the element \<open>s\<close> has there.
\<close>

theorem swap_total:
  "\<exists>r. swap s i j = Inr r \<and> length r = length_js s
     \<and> (\<forall>k<length_js s. int k \<noteq> i \<and> int k \<noteq> j \<longrightarrow> r ! k = s ! k)"
  by (simp add: swap_copy length_map_js map_js_Some_nth)

theorem swap_total_witness:
  "\<exists>r. swap [Some (Num (Fin 1)), Some (Num (Fin 2)), Some (Num (Fin 3))] 0 5 = Inr r
     \<and> length r = 3 \<and> (1::nat) < 3 \<and> int 1 \<noteq> 0 \<and> int 1 \<noteq> 5 \<and> r ! 1 = Some (Num (Fin 2))"
proof -
  from swap_total [of "[Some (Num (Fin 1)), Some (Num (Fin 2)), Some (Num (Fin 3))]" 0 5]
  obtain r where r: "swap [Some (Num (Fin 1)), Some (Num (Fin 2)), Some (Num (Fin 3))] 0 5 = Inr r"
    "length r = length_js [Some (Num (Fin 1)), Some (Num (Fin 2)), Some (Num (Fin 3))]"
    "\<forall>k<length_js [Some (Num (Fin 1)), Some (Num (Fin 2)), Some (Num (Fin 3))].
       int k \<noteq> 0 \<and> int k \<noteq> 5 \<longrightarrow> r ! k = [Some (Num (Fin 1)), Some (Num (Fin 2)), Some (Num (Fin 3))] ! k"
    by blast
  from r(3) have "r ! 1 = Some (Num (Fin 2))" by simp
  with r(1,2) show ?thesis by simp
qed

section \<open>Filter, reject and flatten on arrays of numbers\<close>

lemma set_filter_js: "set (filter_js s p) \<subseteq> set s"
  by (induction s p rule: filter_js.induct) auto

lemma set_reject: "set (reject s p) \<subseteq> set s"
  by (induction s p rule: reject.induct) auto

lemma filter_js_holds: "y \<in> set (filter_js s p) \<Longrightarrow> \<exists>x. y = Some x \<and> p x"
  by (induction s p rule: filter_js.induct) (auto split: if_splits)

lemma reject_holds: "y \<in> set (reject s p) \<Longrightarrow> \<exists>x. y = Some x \<and> \<not> p x"
  by (induction s p rule: reject.induct) (auto split: if_splits)

lemma mset_filter_reject: "None \<notin> set s \<Longrightarrow> mset (filter_js s p) + mset (reject s p) = mset s"
  by (induction s p rule: filter_js.induct) simp_all

lemma filter_js_complement:
  "\<forall>x. Some x \<in> set s \<longrightarrow> q x = (\<not> p x) \<Longrightarrow> filter_js s q = reject s p"
  by (induction s p rule: reject.induct) simp_all

lemma numeric_filter_js: "numeric s \<Longrightarrow> numeric (filter_js s p)"
  using set_filter_js [of s p] by (auto simp: numeric_set)

lemma numeric_reject: "numeric s \<Longrightarrow> numeric (reject s p)"
  using set_reject [of s p] by (auto simp: numeric_set)

lemma flatten_numeric: "numeric s \<Longrightarrow> flatten s = s"
  by (induction s rule: flatten.induct) (simp_all add: numeric_Cons)

lemma flatten_three:
  assumes "numeric l" and "number p" and "numeric m"
  shows "flatten [Some (Arr l), p, Some (Arr m)] = l @ p # m"
proof -
  from assms(2) obtain n where "p = Some (Num n)"
    using number_cases by blast
  then show ?thesis
    by (simp add: flatten_numeric [OF assms(1)] flatten_numeric [OF assms(3)])
qed

lemma numeric_mset: "mset ys = mset xs \<Longrightarrow> numeric xs \<Longrightarrow> numeric ys"
  using mset_eq_setD [of ys xs] by (simp add: numeric_set)

lemma sorted_around_pivot:
  assumes "sorted_wrt le_js l" and "sorted_wrt le_js m"
    and "\<forall>y\<in>set l. le_js y p" and "\<forall>z\<in>set m. le_js p z"
  shows "sorted_wrt le_js (l @ p # m)"
proof -
  have "le_js y z" if "y \<in> set l" and "z \<in> set m" for y z
    using assms(3,4) that le_num_trans [of "to_number y" "to_number p" "to_number z"]
    by (auto simp: le_js_def)
  with assms show ?thesis by (simp add: sorted_wrt_append)
qed

section \<open>Quicksort\<close>

lemma quicksort_step:
  assumes "number a" and "numeric s"
    and "numeric (quicksort (filter_js s (\<lambda>x. le_js (Some x) a)))"
    and "numeric (quicksort (filter_js s (\<lambda>x. gt_js (Some x) a)))"
  shows "quicksort (a # s) =
    quicksort (filter_js s (\<lambda>x. le_js (Some x) a)) @ a
      # quicksort (filter_js s (\<lambda>x. gt_js (Some x) a))"
proof -
  from assms(1) obtain n where a: "a = Some (Num n)"
    using number_cases by blast
  have "quicksort (a # s) =
    flatten [Some (Arr (quicksort (filter_js s (\<lambda>x. le_js (Some x) a)))), a,
             Some (Arr (quicksort (filter_js s (\<lambda>x. gt_js (Some x) a))))]"
    by (subst quicksort.simps) (simp add: a del: flatten.simps)
  then show ?thesis
    by (simp only: flatten_three [OF assms(3) assms(1) assms(4)])
qed

lemma gt_js_complement:
  assumes "number a" and "numeric s"
  shows "filter_js s (\<lambda>x. gt_js (Some x) a) = reject s (\<lambda>x. le_js (Some x) a)"
proof (rule filter_js_complement, intro allI impI)
  fix x assume "Some x \<in> set s"
  with assms(2) have "number (Some x)" by (simp add: numeric_set)
  with assms(1) show "gt_js (Some x) a = (\<not> le_js (Some x) a)"
    using number_cases [of a] number_cases [of "Some x"]
    by (auto simp: gt_js_def le_js_def le_num_def)
qed

lemma quicksort_correct:
  "numeric xs \<Longrightarrow>
   numeric (quicksort xs) \<and> mset (quicksort xs) = mset xs \<and> sorted_wrt le_js (quicksort xs)"
proof (induction xs rule: quicksort.induct)
  case (1 xs)
  show ?case
  proof (cases xs)
    case Nil
    then show ?thesis by (simp add: quicksort.simps numeric_Nil)
  next
    case (Cons a s)
    with "1.prems" have a: "number a" and s: "numeric s" by (simp_all add: numeric_Cons)
    from a obtain n where n: "a = Some (Num n)" "n \<noteq> NaN"
      using number_cases by blast
    let ?L = "filter_js s (\<lambda>x. le_js (Some x) a)"
    let ?R = "filter_js s (\<lambda>x. gt_js (Some x) a)"
    have len: "length_js xs \<noteq> 0" by (simp add: Cons n)
    have L: "numeric ?L" and R: "numeric ?R" using s by (simp_all add: numeric_filter_js)
    from "1.IH"(1) [OF len] L have qL: "numeric (quicksort ?L)" "mset (quicksort ?L) = mset ?L"
      "sorted_wrt le_js (quicksort ?L)" by (simp_all add: Cons)
    from "1.IH"(2) [OF len] R have qR: "numeric (quicksort ?R)" "mset (quicksort ?R) = mset ?R"
      "sorted_wrt le_js (quicksort ?R)" by (simp_all add: Cons)
    have eq: "quicksort xs = quicksort ?L @ a # quicksort ?R"
      unfolding Cons using a s qL(1) qR(1) by (rule quicksort_step)
    have "mset ?L + mset ?R = mset s"
      using mset_filter_reject [OF numeric_defined [OF s]] gt_js_complement [OF a s] by simp
    then have m: "mset (quicksort xs) = mset xs"
      unfolding eq by (simp add: qL(2) qR(2) Cons)
    have lo: "\<forall>y\<in>set (quicksort ?L). le_js y a"
      using mset_eq_setD [OF qL(2)] filter_js_holds [of _ s "\<lambda>x. le_js (Some x) a"] by auto
    have hi: "\<forall>z\<in>set (quicksort ?R). le_js a z"
    proof
      fix z assume "z \<in> set (quicksort ?R)"
      then have "z \<in> set ?R" using mset_eq_setD [OF qR(2)] by simp
      then obtain x where "z = Some x" "gt_js (Some x) a"
        using filter_js_holds by fastforce
      then show "le_js a z" by (simp add: gt_js_def le_js_def lt_num_le)
    qed
    have "sorted_wrt le_js (quicksort xs)"
      unfolding eq using qL(3) qR(3) lo hi by (rule sorted_around_pivot)
    with m numeric_mset [OF m "1.prems"] show ?thesis by simp
  qed
qed

lemma quicksort_partition_step:
  assumes "number a" and "numeric s"
    and "numeric (quicksort_partition (filter_js s (\<lambda>x. lt_js (Some x) a)))"
    and "numeric (quicksort_partition (reject s (\<lambda>x. lt_js (Some x) a)))"
  shows "quicksort_partition (a # s) =
    quicksort_partition (filter_js s (\<lambda>x. lt_js (Some x) a)) @ a
      # quicksort_partition (reject s (\<lambda>x. lt_js (Some x) a))"
proof -
  from assms(1) obtain n where a: "a = Some (Num n)"
    using number_cases by blast
  have "quicksort_partition (a # s) =
    flatten [Some (Arr (quicksort_partition (filter_js s (\<lambda>x. lt_js (Some x) a)))), a,
             Some (Arr (quicksort_partition (reject s (\<lambda>x. lt_js (Some x) a))))]"
    by (subst quicksort_partition.simps) (simp add: a partition_js_def del: flatten.simps)
  then show ?thesis
    by (simp only: flatten_three [OF assms(3) assms(1) assms(4)])
qed

lemma quicksort_partition_correct:
  "numeric xs \<Longrightarrow>
   numeric (quicksort_partition xs) \<and> mset (quicksort_partition xs) = mset xs
     \<and> sorted_wrt le_js (quicksort_partition xs)"
proof (induction xs rule: quicksort_partition.induct)
  case (1 xs)
  show ?case
  proof (cases xs)
    case Nil
    then show ?thesis by (simp add: quicksort_partition.simps numeric_Nil)
  next
    case (Cons a s)
    with "1.prems" have a: "number a" and s: "numeric s" by (simp_all add: numeric_Cons)
    from a obtain n where n: "a = Some (Num n)" "n \<noteq> NaN"
      using number_cases by blast
    let ?L = "filter_js s (\<lambda>x. lt_js (Some x) a)"
    let ?R = "reject s (\<lambda>x. lt_js (Some x) a)"
    have len: "\<not> \<not> length_js xs \<noteq> 0" by (simp add: Cons n)
    have L: "numeric ?L" and R: "numeric ?R"
      using s by (simp_all add: numeric_filter_js numeric_reject)
    from "1.IH"(1) [OF len] L have qL: "numeric (quicksort_partition ?L)"
      "mset (quicksort_partition ?L) = mset ?L" "sorted_wrt le_js (quicksort_partition ?L)"
      by (simp_all add: Cons partition_js_def)
    from "1.IH"(2) [OF len] R have qR: "numeric (quicksort_partition ?R)"
      "mset (quicksort_partition ?R) = mset ?R" "sorted_wrt le_js (quicksort_partition ?R)"
      by (simp_all add: Cons partition_js_def)
    have eq: "quicksort_partition xs = quicksort_partition ?L @ a # quicksort_partition ?R"
      unfolding Cons using a s qL(1) qR(1) by (rule quicksort_partition_step)
    have "mset ?L + mset ?R = mset s"
      using mset_filter_reject [OF numeric_defined [OF s]] by simp
    then have m: "mset (quicksort_partition xs) = mset xs"
      unfolding eq by (simp add: qL(2) qR(2) Cons)
    have lo: "\<forall>y\<in>set (quicksort_partition ?L). le_js y a"
    proof
      fix y assume "y \<in> set (quicksort_partition ?L)"
      then have "y \<in> set ?L" using mset_eq_setD [OF qL(2)] by simp
      then obtain x where "y = Some x" "lt_js (Some x) a"
        using filter_js_holds by fastforce
      then show "le_js y a" by (simp add: lt_js_def le_js_def lt_num_le)
    qed
    have hi: "\<forall>z\<in>set (quicksort_partition ?R). le_js a z"
    proof
      fix z assume "z \<in> set (quicksort_partition ?R)"
      then have z: "z \<in> set ?R" using mset_eq_setD [OF qR(2)] by simp
      then obtain x where x: "z = Some x" "\<not> lt_js (Some x) a"
        using reject_holds by fastforce
      from z R have "number z" by (simp add: numeric_set)
      then obtain k where "z = Some (Num k)" "k \<noteq> NaN"
        using number_cases by blast
      with x n show "le_js a z" by (auto simp: lt_js_def le_js_def le_num_def)
    qed
    have "sorted_wrt le_js (quicksort_partition xs)"
      unfolding eq using qL(3) qR(3) lo hi by (rule sorted_around_pivot)
    with m numeric_mset [OF m "1.prems"] show ?thesis by simp
  qed
qed

text \<open>
  Claim C1 says that \<open>quicksort\<close> returns a non-decreasing permutation of every array of
  numbers. \<open>NaN\<close> is a number to JavaScript, and it is neither \<^verbatim>\<open><=\<close> nor \<^verbatim>\<open>>\<close> the
  pivot: the filter-based quicksort drops it, \<^verbatim>\<open>quicksort([1, NaN])\<close> is \<^verbatim>\<open>[1]\<close>.
\<close>

theorem quicksort_counterexample:
  "mset (quicksort [Some (Num (Fin 1)), Some (Num NaN)])
     \<noteq> mset [Some (Num (Fin 1)), Some (Num NaN)]"
  by (simp add: quicksort.simps le_js_def gt_js_def le_num_def)

text \<open>
  Claim C1, amended. For every array \<open>s\<close> of numbers other than \<open>NaN\<close>, \<open>quicksort s\<close> is
  non-decreasing for \<^verbatim>\<open><=\<close> and is a permutation of \<open>s\<close>, in the filter-based and in the
  partition-based definition.
\<close>

theorem quicksort_sorts:
  assumes "numeric s"
  shows "sorted_wrt le_js (quicksort s) \<and> mset (quicksort s) = mset s
       \<and> sorted_wrt le_js (quicksort_partition s) \<and> mset (quicksort_partition s) = mset s"
  using quicksort_correct [OF assms] quicksort_partition_correct [OF assms] by simp

theorem quicksort_sorts_witness:
  "numeric [Some (Num (Fin 8)), Some (Num (Fin 2)), Some (Num PosInf), Some (Num (Fin 2)),
            Some (Num NegInf)]
   \<and> (sorted_wrt le_js (quicksort [Some (Num (Fin 8)), Some (Num (Fin 2)), Some (Num PosInf),
         Some (Num (Fin 2)), Some (Num NegInf)])
     \<and> mset (quicksort [Some (Num (Fin 8)), Some (Num (Fin 2)), Some (Num PosInf),
         Some (Num (Fin 2)), Some (Num NegInf)])
       = mset [Some (Num (Fin 8)), Some (Num (Fin 2)), Some (Num PosInf), Some (Num (Fin 2)),
           Some (Num NegInf)]
     \<and> sorted_wrt le_js (quicksort_partition [Some (Num (Fin 8)), Some (Num (Fin 2)),
         Some (Num PosInf), Some (Num (Fin 2)), Some (Num NegInf)])
     \<and> mset (quicksort_partition [Some (Num (Fin 8)), Some (Num (Fin 2)), Some (Num PosInf),
         Some (Num (Fin 2)), Some (Num NegInf)])
       = mset [Some (Num (Fin 8)), Some (Num (Fin 2)), Some (Num PosInf), Some (Num (Fin 2)),
           Some (Num NegInf)])"
proof -
  have h: "numeric [Some (Num (Fin 8)), Some (Num (Fin 2)), Some (Num PosInf),
      Some (Num (Fin 2)), Some (Num NegInf)]"
    by (simp add: numeric_def)
  from h quicksort_sorts [OF h] show ?thesis by (rule conjI)
qed

section \<open>Termination of quicksort\<close>

lemma quicksort_run_eq: "quicksort_run xs = Some (quicksort xs)"
proof (induction xs rule: quicksort.induct)
  case (1 xs)
  show ?case
  proof (cases "length_js xs \<noteq> 0")
    case True
    with "1.IH" show ?thesis
      by (subst quicksort_run.simps, subst quicksort.simps) simp
  next
    case False
    then show ?thesis
      by (subst quicksort_run.simps, subst quicksort.simps) simp
  qed
qed

lemma length_js_filter_js: "length_js (filter_js s p) \<le> length_js s"
  by (induction s p rule: filter_js.induct) (simp_all add: le_SucI)

lemma length_js_tail: "length_js xs \<noteq> 0 \<Longrightarrow> length_js (tail xs) < length_js xs"
  by (cases xs rule: length_js.cases) simp_all

text \<open>
  Claim C9. \<open>quicksort\<close> returns on every array: \<open>quicksort_run\<close>, which assumes nothing
  about termination, always has a result. Each recursive call is on a filter of the tail of
  the input, whose \<open>length\<close> is strictly smaller than that of the input.
\<close>

theorem quicksort_terminates:
  "(\<exists>ys. quicksort_run xs = Some ys)
   \<and> (length_js xs \<noteq> 0 \<longrightarrow>
        length_js (filter_js (tail xs) (\<lambda>x. le_js (Some x) (head xs))) < length_js xs
      \<and> length_js (filter_js (tail xs) (\<lambda>x. gt_js (Some x) (head xs))) < length_js xs)"
proof -
  have "length_js (filter_js (tail xs) p) < length_js xs" if "length_js xs \<noteq> 0" for p
    using length_js_filter_js [of "tail xs" p] length_js_tail [OF that] by simp
  then show ?thesis by (simp add: quicksort_run_eq)
qed

theorem quicksort_terminates_witness:
  "length_js [Some (Num (Fin 8)), Some (Num (Fin 2)), Some (Num (Fin 6))] \<noteq> 0
   \<and> (\<exists>ys. quicksort_run [Some (Num (Fin 8)), Some (Num (Fin 2)), Some (Num (Fin 6))] = Some ys)
   \<and> length_js (filter_js (tail [Some (Num (Fin 8)), Some (Num (Fin 2)), Some (Num (Fin 6))])
        (\<lambda>x. le_js (Some x) (head [Some (Num (Fin 8)), Some (Num (Fin 2)), Some (Num (Fin 6))])))
       < length_js [Some (Num (Fin 8)), Some (Num (Fin 2)), Some (Num (Fin 6))]
   \<and> length_js (filter_js (tail [Some (Num (Fin 8)), Some (Num (Fin 2)), Some (Num (Fin 6))])
        (\<lambda>x. gt_js (Some x) (head [Some (Num (Fin 8)), Some (Num (Fin 2)), Some (Num (Fin 6))])))
       < length_js [Some (Num (Fin 8)), Some (Num (Fin 2)), Some (Num (Fin 6))]"
proof -
  have h: "length_js [Some (Num (Fin 8)), Some (Num (Fin 2)), Some (Num (Fin 6))] \<noteq> 0"
    by simp
  from quicksort_terminates [of "[Some (Num (Fin 8)), Some (Num (Fin 2)), Some (Num (Fin 6))]"] h
  show ?thesis by blast
qed

end
